theory Spec2Isabelle
  imports Main
begin

section \<open>Visualizing Thinc models: the label formatter and the diagram builder\<close>

text \<open>
  The notebook \<^verbatim>\<open>examples/05_visualizing_models.ipynb\<close> defines two functions:
  \<^verbatim>\<open>get_label\<close>, which formats a layer's name and its two dimensions, and
  \<^verbatim>\<open>visualize_model\<close>, which walks the layers of a pipeline and builds a graph
  with one node per layer and an edge between consecutive layers.
\<close>

subsection \<open>Errors\<close>

text \<open>
  Every exception the two functions can meet is a value: the error of a dimension
  lookup on an unknown dimension, Python's \<^verbatim>\<open>KeyError\<close> of a dictionary lookup
  and Python's \<^verbatim>\<open>IndexError\<close> of a list index.
\<close>

datatype error = UnknownDim string | KeyError int | IndexError

subsection \<open>Layers and pipelines\<close>

text \<open>
  Modelled from the spec: the class of the layers (Thinc's \<^verbatim>\<open>Model\<close>, with
  \<^verbatim>\<open>name\<close>, \<^verbatim>\<open>id\<close>, \<^verbatim>\<open>layers\<close>, \<^verbatim>\<open>has_dim\<close> and
  \<^verbatim>\<open>get_dim\<close>) is not among the source files. The spec describes a layer as having
  a name, a stable identifier, and zero or more named integer dimensions that may be
  present or absent (unknown); a pipeline is an ordered sequence of layers. The dimensions
  are a map from dimension names to integers, and absent means unknown.
\<close>

record layer =
  name :: string
  id_attr :: int
  dims :: "string \<rightharpoonup> int"

record model =
  layers :: "layer list"

text \<open>
  Modelled from the spec: \<^verbatim>\<open>has_dim\<close> tells whether a dimension is known, and
  \<^verbatim>\<open>get_dim\<close> returns its value, failing on a dimension that is not known.
\<close>

definition has_dim :: "layer \<Rightarrow> string \<Rightarrow> bool" where
  "has_dim layer d = (case dims layer d of None \<Rightarrow> False | Some v \<Rightarrow> True)"

definition get_dim :: "layer \<Rightarrow> string \<Rightarrow> error + int" where
  "get_dim layer d = (case dims layer d of None \<Rightarrow> Inl (UnknownDim d) | Some v \<Rightarrow> Inr v)"

subsection \<open>Python's string operations\<close>

text \<open>
  \<^verbatim>\<open>str\<close> of an integer is its decimal representation, with a leading minus sign for
  a negative one.
\<close>

definition digit_chr :: "nat \<Rightarrow> char" where
  "digit_chr d = ''0123456789'' ! d"

fun str_nat :: "nat \<Rightarrow> string" where
  "str_nat n = (if n < 10 then [digit_chr n] else str_nat (n div 10) @ [digit_chr (n mod 10)])"

declare str_nat.simps [simp del]

definition str_int :: "int \<Rightarrow> string" where
  "str_int i = (if i < 0 then CHR ''-'' # str_nat (nat (- i)) else str_nat (nat i))"

text \<open>
  The two locals \<^verbatim>\<open>nO\<close> and \<^verbatim>\<open>nI\<close> of \<^verbatim>\<open>get_label\<close> hold either an integer
  (the dimension) or a string (the placeholder); the f-string formats either with
  \<^verbatim>\<open>str\<close>.
\<close>

datatype pyval = PyInt int | PyStr string

fun format_val :: "pyval \<Rightarrow> string" where
  "format_val (PyInt i) = str_int i"
| "format_val (PyStr s) = s"

text \<open>
  \<^verbatim>\<open>s.replace(old, new)\<close> where \<^verbatim>\<open>old\<close> is a single character: every occurrence
  of the character, from left to right, is replaced by \<^verbatim>\<open>new\<close>.
\<close>

primrec replace :: "string \<Rightarrow> char \<Rightarrow> string \<Rightarrow> string" where
  "replace [] old new = []"
| "replace (c # cs) old new = (if c = old then new else [c]) @ replace cs old new"

subsection \<open>The label formatter\<close>

text \<open>
  \<^verbatim>\<open>
  def get_label(layer):
      layer_name = layer.name
      nO = layer.get_dim("nO") if layer.has_dim("nO") else "?"
      nI = layer.get_dim("nI") if layer.has_dim("nI") else "?"
      return f"{layer.name}|({nO}, {nI})".replace(">", "&gt;")
  \<close>
  A failing \<^verbatim>\<open>get_dim\<close> propagates as the error of \<^verbatim>\<open>get_label\<close>.
  The conditional expression \<^verbatim>\<open>layer.get_dim(d) if layer.has_dim(d) else "?"\<close>,
  which the source writes once for each of the two dimensions, is
  \<open>dim_or_placeholder\<close>.
\<close>

definition dim_or_placeholder :: "layer \<Rightarrow> string \<Rightarrow> error + pyval" where
  "dim_or_placeholder layer d =
     (if has_dim layer d
      then (case get_dim layer d of Inl e \<Rightarrow> Inl e | Inr v \<Rightarrow> Inr (PyInt v))
      else Inr (PyStr ''?''))"

definition get_label :: "layer \<Rightarrow> error + string" where
  "get_label layer =
     (let layer_name = name layer in
      case dim_or_placeholder layer ''nO'' of
        Inl e \<Rightarrow> Inl e
      | Inr nO \<Rightarrow>
         (case dim_or_placeholder layer ''nI'' of
            Inl e \<Rightarrow> Inl e
          | Inr nI \<Rightarrow>
              Inr (replace (name layer @ ''|('' @ format_val nO @ '', '' @ format_val nI @ '')'')
                     CHR ''>'' ''&gt;'')))"

subsection \<open>The graph\<close>

text \<open>
  The graph library (pydot) is outside the repository; the model keeps what the notebook
  uses of it: a node carries the name it is keyed by (the layer's identifier) and a label
  string, an edge is the ordered pair of the names of its two end nodes, and a graph holds
  its attributes, the default attributes of nodes and of edges, the nodes in the order
  they were added and the edges in the order they were added.
\<close>

record node =
  node_name :: int
  node_label :: string

type_synonym edge = "int \<times> int"

record dot =
  attributes :: "string \<rightharpoonup> string"
  node_defaults :: "(string \<times> string) list"
  edge_defaults :: "(string \<times> string) list"
  dot_nodes :: "node list"
  dot_edges :: "edge list"

definition Dot :: dot where
  "Dot = \<lparr>attributes = Map.empty, node_defaults = [], edge_defaults = [],
          dot_nodes = [], dot_edges = []\<rparr>"

definition set_attr :: "dot \<Rightarrow> string \<Rightarrow> string \<Rightarrow> dot" where
  "set_attr g k v = g\<lparr>attributes := (attributes g)(k \<mapsto> v)\<rparr>"

definition set_node_defaults :: "dot \<Rightarrow> (string \<times> string) list \<Rightarrow> dot" where
  "set_node_defaults g attrs = g\<lparr>node_defaults := attrs\<rparr>"

definition set_edge_defaults :: "dot \<Rightarrow> (string \<times> string) list \<Rightarrow> dot" where
  "set_edge_defaults g attrs = g\<lparr>edge_defaults := attrs\<rparr>"

definition Node :: "int \<Rightarrow> string \<Rightarrow> node" where
  "Node k label = \<lparr>node_name = k, node_label = label\<rparr>"

definition Edge :: "node \<Rightarrow> node \<Rightarrow> edge" where
  "Edge from_node to_node = (node_name from_node, node_name to_node)"

definition add_node :: "dot \<Rightarrow> node \<Rightarrow> dot" where
  "add_node g n = g\<lparr>dot_nodes := dot_nodes g @ [n]\<rparr>"

definition add_edge :: "dot \<Rightarrow> edge \<Rightarrow> dot" where
  "add_edge g e = g\<lparr>dot_edges := dot_edges g @ [e]\<rparr>"

text \<open>
  \<^verbatim>\<open>Edge(src, dst)\<close> takes the names of the two node objects it is given. The graph
  keeps its edges under the pair of their end names, and \<^verbatim>\<open>get_edge(src, dst)\<close> looks
  the pair \<^verbatim>\<open>(src, dst)\<close> up as it is given, with no conversion: it returns the edges
  stored under that pair, and the empty list when the pair is not a key. What a caller
  passes as an end is a name or a node object; a node object has no equality of its own
  and is equal to no name, so that a pair holding a node object is the key of no edge.
\<close>

datatype endpoint = Name int | Obj node

definition get_edge :: "dot \<Rightarrow> endpoint \<Rightarrow> endpoint \<Rightarrow> edge list" where
  "get_edge g src dst =
     filter (\<lambda>e. (Name (fst e), Name (snd e)) = (src, dst)) (dot_edges g)"

subsection \<open>The diagram builder\<close>

text \<open>
  \<^verbatim>\<open>
  def visualize_model(model):
      dot = pydot.Dot()
      dot.set("rankdir", "LR")
      dot.set_node_defaults(shape="record", fontname="arial", fontsize="10")
      dot.set_edge_defaults(arrowsize="0.7")
      nodes = {}
      for i, layer in enumerate(model.layers):
          label = get_label(layer)
          node = pydot.Node(layer.id, label=label)
          dot.add_node(node)
          nodes[layer.id] = node
          if i == 0:
              continue
          from_node = nodes[model.layers[i - 1].id]
          to_node = nodes[layer.id]
          if not dot.get_edge(from_node, to_node):
              dot.add_edge(pydot.Edge(from_node, to_node))
      display(SVG(dot.create_svg()))
  \<close>
  The state of the function is the pipeline object it was given (Python passes a
  reference, through which the callee could write), the graph and the dictionary
  \<^verbatim>\<open>nodes\<close>. The loop body takes the state and returns the new one, or the error
  that ends the call. The loop runs over the list that \<^verbatim>\<open>model.layers\<close> gives when
  the loop starts; the body reads \<^verbatim>\<open>model.layers[i - 1]\<close> from the state again.
  The two arguments of \<^verbatim>\<open>dot.get_edge\<close> are the node objects taken from
  \<^verbatim>\<open>nodes\<close>, as the source passes them.
\<close>

record vm_state =
  vs_model :: model
  vs_dot :: dot
  vs_nodes :: "int \<rightharpoonup> node"

definition index :: "'a list \<Rightarrow> nat \<Rightarrow> error + 'a" where
  "index xs i = (if i < length xs then Inr (xs ! i) else Inl IndexError)"

definition lookup :: "(int \<rightharpoonup> node) \<Rightarrow> int \<Rightarrow> error + node" where
  "lookup d k = (case d k of None \<Rightarrow> Inl (KeyError k) | Some v \<Rightarrow> Inr v)"

definition loop_body :: "vm_state \<Rightarrow> nat \<times> layer \<Rightarrow> error + vm_state" where
  "loop_body s il =
     (case il of (i, layer) \<Rightarrow>
      (case get_label layer of
        Inl e \<Rightarrow> Inl e
      | Inr label \<Rightarrow>
         (let node = Node (id_attr layer) label;
              s1 = s\<lparr>vs_dot := add_node (vs_dot s) node\<rparr>;
              s2 = s1\<lparr>vs_nodes := (vs_nodes s1)(id_attr layer \<mapsto> node)\<rparr>
          in if i = 0 then Inr s2
             else
              (case index (layers (vs_model s2)) (i - 1) of
                 Inl e \<Rightarrow> Inl e
               | Inr prev \<Rightarrow>
                  (case lookup (vs_nodes s2) (id_attr prev) of
                     Inl e \<Rightarrow> Inl e
                   | Inr from_node \<Rightarrow>
                      (case lookup (vs_nodes s2) (id_attr layer) of
                         Inl e \<Rightarrow> Inl e
                       | Inr to_node \<Rightarrow>
                          (if get_edge (vs_dot s2) (Obj from_node) (Obj to_node) = []
                           then Inr (s2\<lparr>vs_dot := add_edge (vs_dot s2) (Edge from_node to_node)\<rparr>)
                           else Inr s2)))))))"

fun for_loop :: "vm_state \<Rightarrow> (nat \<times> layer) list \<Rightarrow> error + vm_state" where
  "for_loop s [] = Inr s"
| "for_loop s (il # ils) =
     (case loop_body s il of Inl e \<Rightarrow> Inl e | Inr s' \<Rightarrow> for_loop s' ils)"

text \<open>
  The result of \<open>visualize_model\<close> is the state at the end of the loop: its graph is the
  one handed to the renderer. Rendering and display are the work of the graph library and
  of the notebook's display utility, and are not modelled.
\<close>

definition visualize_model :: "model \<Rightarrow> error + vm_state" where
  "visualize_model model =
     (let dot = Dot;
          dot = set_attr dot ''rankdir'' ''LR'';
          dot = set_node_defaults dot
                  [(''shape'', ''record''), (''fontname'', ''arial''), (''fontsize'', ''10'')];
          dot = set_edge_defaults dot [(''arrowsize'', ''0.7'')];
          nodes = Map.empty
      in for_loop \<lparr>vs_model = model, vs_dot = dot, vs_nodes = nodes\<rparr>
           (enumerate 0 (layers model)))"

subsection \<open>The label of the spec and the graph that is built\<close>

text \<open>
  The label of the spec: the name with every \<^verbatim>\<open>>\<close> written \<^verbatim>\<open>&gt;\<close>, then
  \<^verbatim>\<open>|(\<close>, the output dimension, a comma and a space, the input dimension and
  \<^verbatim>\<open>)\<close>; a dimension is its decimal value when known and \<^verbatim>\<open>?\<close> when not.
\<close>

definition escape_gt :: "string \<Rightarrow> string" where
  "escape_gt s = concat (map (\<lambda>c. if c = CHR ''>'' then ''&gt;'' else [c]) s)"

definition dim_text :: "layer \<Rightarrow> string \<Rightarrow> string" where
  "dim_text layer d = (case dims layer d of None \<Rightarrow> ''?'' | Some v \<Rightarrow> str_int v)"

definition label_spec :: "layer \<Rightarrow> string" where
  "label_spec layer =
     escape_gt (name layer) @ ''|('' @ dim_text layer ''nO'' @ '', '' @ dim_text layer ''nI'' @ '')''"

text \<open>
  The graph that the builder is shown to produce: one node per layer, in order, keyed by
  the layer's identifier and carrying its label; the edges are the consecutive pairs of
  identifiers, in order, one for every position after the first.
\<close>

definition node_spec :: "layer \<Rightarrow> node" where
  "node_spec layer = \<lparr>node_name = id_attr layer, node_label = label_spec layer\<rparr>"

definition consecutive :: "'a list \<Rightarrow> ('a \<times> 'a) list" where
  "consecutive xs = zip xs (tl xs)"

definition built_graph :: "model \<Rightarrow> dot" where
  "built_graph m =
     \<lparr>attributes = [''rankdir'' \<mapsto> ''LR''],
      node_defaults = [(''shape'', ''record''), (''fontname'', ''arial''), (''fontsize'', ''10'')],
      edge_defaults = [(''arrowsize'', ''0.7'')],
      dot_nodes = map node_spec (layers m),
      dot_edges = consecutive (map id_attr (layers m))\<rparr>"

subsection \<open>Example layers and states\<close>

text \<open>
  Three layers after the notebook's model (a chain of \<^verbatim>\<open>Relu\<close>, \<^verbatim>\<open>Maxout\<close> and
  \<^verbatim>\<open>Linear\<close> layers whose output sizes are set and whose input sizes are not), a
  pipeline of the first two, and two states of the loop over that pipeline: after its first
  iteration and after its second.
\<close>

definition relu_layer :: layer where
  "relu_layer = \<lparr>name = ''relu'', id_attr = 1, dims = [''nO'' \<mapsto> 32]\<rparr>"

definition maxout_layer :: layer where
  "maxout_layer = \<lparr>name = ''maxout'', id_attr = 2, dims = [''nO'' \<mapsto> 128]\<rparr>"

definition linear_layer :: layer where
  "linear_layer = \<lparr>name = ''linear'', id_attr = 3, dims = [''nO'' \<mapsto> 64]\<rparr>"

definition relu_inferred :: layer where
  "relu_inferred = \<lparr>name = ''relu'', id_attr = 1, dims = [''nO'' \<mapsto> 32, ''nI'' \<mapsto> 16]\<rparr>"

definition maxout_pieces :: layer where
  "maxout_pieces = \<lparr>name = ''maxout'', id_attr = 2, dims = [''nO'' \<mapsto> 128, ''nP'' \<mapsto> 3]\<rparr>"

definition relu_maxout :: model where
  "relu_maxout = \<lparr>layers = [relu_layer, maxout_layer]\<rparr>"

definition after_relu :: vm_state where
  "after_relu =
     \<lparr>vs_model = relu_maxout,
      vs_dot = (built_graph relu_maxout)\<lparr>dot_nodes := [node_spec relu_layer], dot_edges := []\<rparr>,
      vs_nodes = [1 \<mapsto> node_spec relu_layer]\<rparr>"

definition after_maxout :: vm_state where
  "after_maxout =
     \<lparr>vs_model = relu_maxout,
      vs_dot = built_graph relu_maxout,
      vs_nodes = [1 \<mapsto> node_spec relu_layer, 2 \<mapsto> node_spec maxout_layer]\<rparr>"

section \<open>The label formatter computes the label of the spec\<close>

lemma replace_append: "replace (xs @ ys) old new = replace xs old new @ replace ys old new"
  by (induction xs) simp_all

lemma replace_absent: "old \<notin> set xs \<Longrightarrow> replace xs old new = xs"
  by (induction xs) auto

lemma replace_escape_gt: "replace s CHR ''>'' ''&gt;'' = escape_gt s"
  by (induction s) (simp_all add: escape_gt_def)

lemma escape_gt_free: "CHR ''>'' \<notin> set (escape_gt s)"
  by (induction s) (simp_all add: escape_gt_def)

lemma digit_chr_in: "d < 10 \<Longrightarrow> digit_chr d \<in> set ''0123456789''"
  unfolding digit_chr_def by (rule nth_mem) simp

lemma str_nat_digits: "set (str_nat n) \<subseteq> set ''0123456789''"
proof (induction n rule: str_nat.induct)
  case (1 n)
  define S where "S = set ''0123456789''"
  show ?case unfolding S_def [symmetric]
  proof (cases "n < 10")
    case True
    have "digit_chr n \<in> S" unfolding S_def using True by (rule digit_chr_in)
    moreover have "str_nat n = [digit_chr n]" using True by (subst str_nat.simps) simp
    ultimately show "set (str_nat n) \<subseteq> S" by simp
  next
    case False
    have "n mod 10 < 10" by simp
    then have "digit_chr (n mod 10) \<in> S" unfolding S_def by (rule digit_chr_in)
    moreover have "set (str_nat (n div 10)) \<subseteq> S" unfolding S_def using 1 False by blast
    moreover have "str_nat n = str_nat (n div 10) @ [digit_chr (n mod 10)]"
      using False by (subst str_nat.simps) simp
    ultimately show "set (str_nat n) \<subseteq> S" by simp
  qed
qed


lemma str_nat_no_gt: "CHR ''>'' \<notin> set (str_nat n)"
proof
  assume "CHR ''>'' \<in> set (str_nat n)"
  with str_nat_digits [of n] have "CHR ''>'' \<in> set ''0123456789''" by (rule subsetD)
  then show False by simp
qed

lemma str_int_no_gt: "CHR ''>'' \<notin> set (str_int i)"
  by (simp add: str_int_def str_nat_no_gt)

lemma dim_text_no_gt: "CHR ''>'' \<notin> set (dim_text l d)"
  by (simp add: dim_text_def str_int_no_gt split: option.split)

lemma dim_or_placeholder_eq:
  "dim_or_placeholder l d = Inr (case dims l d of None \<Rightarrow> PyStr ''?'' | Some v \<Rightarrow> PyInt v)"
  by (simp add: dim_or_placeholder_def has_dim_def get_dim_def split: option.split)

lemma format_dim_text:
  "format_val (case dims l d of None \<Rightarrow> PyStr ''?'' | Some v \<Rightarrow> PyInt v) = dim_text l d"
  by (simp add: dim_text_def split: option.split)

lemma get_label_spec: "get_label l = Inr (label_spec l)"
proof -
  have "replace (name l @ ''|('' @ dim_text l ''nO'' @ '', '' @ dim_text l ''nI'' @ '')'')
          CHR ''>'' ''&gt;'' = label_spec l"
    by (simp add: replace_append replace_escape_gt [symmetric] label_spec_def replace_absent
        dim_text_no_gt)
  then show ?thesis
    by (simp add: get_label_def dim_or_placeholder_eq format_dim_text)
qed

lemma label_spec_no_gt: "CHR ''>'' \<notin> set (label_spec l)"
  by (simp add: label_spec_def escape_gt_free dim_text_no_gt)

lemma str_int_32: "str_int 32 = ''32''"
  by (simp add: str_int_def str_nat.simps [of 32] str_nat.simps [of 3] digit_chr_def)

lemma str_int_16: "str_int 16 = ''16''"
  by (simp add: str_int_def str_nat.simps [of 16] str_nat.simps [of "Suc 0"] digit_chr_def)

text \<open>
  C1: for every layer, \<open>get_label\<close> returns the name with every \<^verbatim>\<open>>\<close> escaped to
  \<^verbatim>\<open>&gt;\<close>, followed by \<^verbatim>\<open>|(nO, nI)\<close>, where a dimension is its decimal value
  when it is known and \<^verbatim>\<open>?\<close> when it is not, and no \<^verbatim>\<open>>\<close> is left anywhere in
  the label. In particular a layer with both dimensions unknown gives \<^verbatim>\<open>name|(?, ?)\<close>
  and a layer with output size 32 and input size 16 gives \<^verbatim>\<open>name|(32, 16)\<close>, whatever
  its identifier and other dimensions; a name \<^verbatim>\<open>a>>b\<close> is written
  \<^verbatim>\<open>a&gt;&gt;b\<close>.
\<close>

theorem get_label_format:
  "get_label layer =
     Inr (escape_gt (name layer) @ ''|('' @ dim_text layer ''nO'' @ '', '' @
          dim_text layer ''nI'' @ '')'')
   \<and> (\<exists>s. get_label layer = Inr s \<and> CHR ''>'' \<notin> set s)
   \<and> get_label \<lparr>name = n, id_attr = k, dims = d(''nO'' := None, ''nI'' := None)\<rparr> =
       Inr (escape_gt n @ ''|(?, ?)'')
   \<and> get_label \<lparr>name = n, id_attr = k, dims = d(''nO'' \<mapsto> 32, ''nI'' \<mapsto> 16)\<rparr> =
       Inr (escape_gt n @ ''|(32, 16)'')
   \<and> get_label \<lparr>name = ''maxout'', id_attr = k, dims = d(''nO'' \<mapsto> 32, ''nI'' \<mapsto> 16)\<rparr> =
       Inr ''maxout|(32, 16)''
   \<and> get_label \<lparr>name = ''a>>b'', id_attr = k, dims = Map.empty\<rparr> = Inr ''a&gt;&gt;b|(?, ?)''"
proof -
  have general: "get_label layer =
     Inr (escape_gt (name layer) @ ''|('' @ dim_text layer ''nO'' @ '', '' @
          dim_text layer ''nI'' @ '')'')"
    by (simp add: get_label_spec label_spec_def)
  have no_gt: "\<exists>s. get_label layer = Inr s \<and> CHR ''>'' \<notin> set s"
    using label_spec_no_gt [of layer] by (simp add: get_label_spec)
  have unknown: "get_label \<lparr>name = n, id_attr = k, dims = d(''nO'' := None, ''nI'' := None)\<rparr> =
       Inr (escape_gt n @ ''|(?, ?)'')"
    by (simp add: get_label_spec label_spec_def dim_text_def)
  have known: "get_label \<lparr>name = n, id_attr = k, dims = d(''nO'' \<mapsto> 32, ''nI'' \<mapsto> 16)\<rparr> =
       Inr (escape_gt n @ ''|(32, 16)'')"
    by (simp add: get_label_spec label_spec_def dim_text_def str_int_32 str_int_16)
  have maxout: "get_label \<lparr>name = ''maxout'', id_attr = k,
        dims = d(''nO'' \<mapsto> 32, ''nI'' \<mapsto> 16)\<rparr> = Inr ''maxout|(32, 16)''"
    by (simp add: get_label_spec label_spec_def dim_text_def str_int_32 str_int_16 escape_gt_def)
  have chained: "get_label \<lparr>name = ''a>>b'', id_attr = k, dims = Map.empty\<rparr> =
       Inr ''a&gt;&gt;b|(?, ?)''"
    by (simp add: get_label_spec label_spec_def dim_text_def escape_gt_def)
  from general no_gt unknown known maxout chained show ?thesis by blast
qed

text \<open>
  C5: \<open>get_label\<close> is total: for every layer it returns a string and never an error,
  whether its dimensions are known or not. Each \<open>get_dim\<close> is guarded by the \<open>has_dim\<close> of
  the same dimension, and \<open>get_dim\<close> succeeds wherever \<open>has_dim\<close> holds, so that the
  guarded lookup never fails. The function takes the layer and returns the label only:
  it has no state to change.
\<close>

theorem get_label_total:
  "(\<exists>s. get_label layer = Inr s)
   \<and> (\<forall>d. has_dim layer d \<longrightarrow> (\<exists>v. get_dim layer d = Inr v))
   \<and> (\<forall>d e. dim_or_placeholder layer d \<noteq> Inl e)"
proof (intro conjI allI impI)
  show "\<exists>s. get_label layer = Inr s"
    by (simp add: get_label_spec)
next
  fix d
  assume "has_dim layer d"
  then obtain v where "dims layer d = Some v"
    by (auto simp: has_dim_def split: option.splits)
  then show "\<exists>v. get_dim layer d = Inr v"
    by (simp add: get_dim_def)
next
  fix d e
  show "dim_or_placeholder layer d \<noteq> Inl e"
    by (simp add: dim_or_placeholder_eq)
qed

theorem get_label_total_witness:
  "has_dim \<lparr>name = ''relu'', id_attr = 7, dims = [''nO'' \<mapsto> 32]\<rparr> ''nO''
   \<and> (\<exists>v. get_dim \<lparr>name = ''relu'', id_attr = 7, dims = [''nO'' \<mapsto> 32]\<rparr> ''nO'' = Inr v)
   \<and> \<not> has_dim \<lparr>name = ''relu'', id_attr = 7, dims = [''nO'' \<mapsto> 32]\<rparr> ''nI''
   \<and> (\<exists>s. get_label \<lparr>name = ''relu'', id_attr = 7, dims = [''nO'' \<mapsto> 32]\<rparr> = Inr s)"
proof -
  let ?l = "\<lparr>name = ''relu'', id_attr = 7, dims = [''nO'' \<mapsto> 32]\<rparr>"
  have known: "has_dim ?l ''nO''" and unknown: "\<not> has_dim ?l ''nI''"
    by (simp_all add: has_dim_def)
  from get_label_total [of ?l] known unknown show ?thesis by blast
qed

section \<open>The graph that the diagram builder computes\<close>

lemma consecutive_snoc:
  "consecutive (xs @ [y]) = (if xs = [] then [] else consecutive xs @ [(last xs, y)])"
proof (induction xs)
  case Nil
  show ?case by (simp add: consecutive_def)
next
  case (Cons x xs)
  then show ?case by (cases xs) (simp_all add: consecutive_def)
qed

lemma length_consecutive: "length (consecutive xs) = length xs - 1"
  by (simp add: consecutive_def)

lemma set_consecutive:
  "set (consecutive xs) = {(xs ! (i - 1), xs ! i) | i. 1 \<le> i \<and> i < length xs}"
proof -
  have "set (consecutive xs) = {(xs ! j, xs ! Suc j) | j. Suc j < length xs}"
    unfolding consecutive_def set_zip by (auto simp: nth_tl)
  also have "\<dots> = {(xs ! (i - 1), xs ! i) | i. 1 \<le> i \<and> i < length xs}"
  proof (intro equalityI subsetI)
    fix e assume "e \<in> {(xs ! j, xs ! Suc j) | j. Suc j < length xs}"
    then obtain j where "e = (xs ! j, xs ! Suc j)" "Suc j < length xs" by blast
    then have "e = (xs ! (Suc j - 1), xs ! Suc j) \<and> 1 \<le> Suc j \<and> Suc j < length xs" by simp
    then show "e \<in> {(xs ! (i - 1), xs ! i) | i. 1 \<le> i \<and> i < length xs}" by blast
  next
    fix e assume "e \<in> {(xs ! (i - 1), xs ! i) | i. 1 \<le> i \<and> i < length xs}"
    then obtain i where i: "e = (xs ! (i - 1), xs ! i)" "1 \<le> i" "i < length xs" by blast
    then obtain j where "i = Suc j" by (cases i) auto
    with i have "e = (xs ! j, xs ! Suc j) \<and> Suc j < length xs" by simp
    then show "e \<in> {(xs ! j, xs ! Suc j) | j. Suc j < length xs}" by blast
  qed
  finally show ?thesis .
qed

lemma get_edge_objects: "get_edge g (Obj a) (Obj b) = []"
  by (simp add: get_edge_def)

lemma loop_body_first:
  "loop_body s (0, l) =
     Inr (s\<lparr>vs_dot := (vs_dot s)\<lparr>dot_nodes := dot_nodes (vs_dot s) @ [node_spec l]\<rparr>,
            vs_nodes := (vs_nodes s)(id_attr l \<mapsto> node_spec l)\<rparr>)"
  by (simp add: loop_body_def get_label_spec Let_def add_node_def Node_def node_spec_def)

lemma loop_body_next:
  assumes lay: "layers (vs_model s) = pre @ l # suf"
    and ne: "pre \<noteq> []"
    and keyed: "\<And>k n. vs_nodes s k = Some n \<Longrightarrow> node_name n = k"
    and prev: "vs_nodes s (id_attr (last pre)) \<noteq> None"
  shows "loop_body s (length pre, l) =
     Inr (s\<lparr>vs_dot := (vs_dot s)
              \<lparr>dot_nodes := dot_nodes (vs_dot s) @ [node_spec l],
               dot_edges := dot_edges (vs_dot s) @ [(id_attr (last pre), id_attr l)]\<rparr>,
            vs_nodes := (vs_nodes s)(id_attr l \<mapsto> node_spec l)\<rparr>)"
proof -
  let ?nodes = "(vs_nodes s)(id_attr l \<mapsto> node_spec l)"
  from ne have idx: "index (pre @ l # suf) (length pre - Suc 0) = Inr (last pre)"
    by (simp add: index_def nth_append last_conv_nth)
  from prev keyed obtain n where n: "?nodes (id_attr (last pre)) = Some n"
      and nn: "node_name n = id_attr (last pre)"
    by (cases "id_attr (last pre) = id_attr l") (auto simp: node_spec_def)
  have from_node: "lookup ?nodes (id_attr (last pre)) = Inr n"
    by (simp only: lookup_def n option.case)
  have to_node: "lookup ?nodes (id_attr l) = Inr (node_spec l)"
    by (simp add: lookup_def)
  have e: "Edge n (node_spec l) = (id_attr (last pre), id_attr l)"
    by (simp add: Edge_def nn node_spec_def)
  show ?thesis
    unfolding loop_body_def
    by (simp add: get_label_spec Let_def lay ne idx add_node_def Node_def
        node_spec_def [symmetric] from_node to_node get_edge_objects e add_edge_def
        del: fun_upd_apply)
qed

lemma loop_body_step:
  assumes lay: "layers (vs_model s) = pre @ l # suf"
    and keyed: "\<forall>k n. vs_nodes s k = Some n \<longrightarrow> node_name n = k"
    and prev: "pre \<noteq> [] \<longrightarrow> vs_nodes s (id_attr (last pre)) \<noteq> None"
    and edges: "dot_edges (vs_dot s) = consecutive (map id_attr pre)"
  shows "loop_body s (length pre, l) =
     Inr (s\<lparr>vs_dot := (vs_dot s)
              \<lparr>dot_nodes := dot_nodes (vs_dot s) @ [node_spec l],
               dot_edges := consecutive (map id_attr (pre @ [l]))\<rparr>,
            vs_nodes := (vs_nodes s)(id_attr l \<mapsto> node_spec l)\<rparr>)"
proof (cases "pre = []")
  case True
  with edges have "dot_edges (vs_dot s) = []"
    by (simp add: consecutive_def)
  with True show ?thesis
    by (simp add: loop_body_first consecutive_def)
next
  case False
  from keyed have k: "\<And>k n. vs_nodes s k = Some n \<Longrightarrow> node_name n = k" by blast
  from prev False have p: "vs_nodes s (id_attr (last pre)) \<noteq> None" by blast
  from False have "consecutive (map id_attr (pre @ [l])) =
      dot_edges (vs_dot s) @ [(id_attr (last pre), id_attr l)]"
    by (simp add: consecutive_snoc last_map edges)
  with loop_body_next [OF lay False k p] show ?thesis by simp
qed

lemma for_loop_run:
  "layers (vs_model s) = pre @ suf \<Longrightarrow>
   \<forall>k n. vs_nodes s k = Some n \<longrightarrow> node_name n = k \<Longrightarrow>
   pre \<noteq> [] \<longrightarrow> vs_nodes s (id_attr (last pre)) \<noteq> None \<Longrightarrow>
   dot_edges (vs_dot s) = (consecutive (map id_attr pre)) \<Longrightarrow>
   \<exists>nodes. for_loop s (enumerate (length pre) suf) =
     Inr (s\<lparr>vs_dot := (vs_dot s)
              \<lparr>dot_nodes := dot_nodes (vs_dot s) @ map node_spec suf,
               dot_edges := (consecutive (map id_attr (pre @ suf)))\<rparr>,
            vs_nodes := nodes\<rparr>)"
proof (induction suf arbitrary: s pre)
  case Nil
  have "s = s\<lparr>vs_dot := (vs_dot s)
              \<lparr>dot_nodes := dot_nodes (vs_dot s) @ map node_spec [],
               dot_edges := (consecutive (map id_attr (pre @ [])))\<rparr>,
            vs_nodes := vs_nodes s\<rparr>"
    using Nil.prems(4) by simp
  then have "for_loop s (enumerate (length pre) []) =
     Inr (s\<lparr>vs_dot := (vs_dot s)
              \<lparr>dot_nodes := dot_nodes (vs_dot s) @ map node_spec [],
               dot_edges := (consecutive (map id_attr (pre @ [])))\<rparr>,
            vs_nodes := vs_nodes s\<rparr>)"
    by simp
  then show ?case by (rule exI [where x = "vs_nodes s"])
next
  case (Cons l suf)
  define s' where "s' = s\<lparr>vs_dot := (vs_dot s)
              \<lparr>dot_nodes := dot_nodes (vs_dot s) @ [node_spec l],
               dot_edges := (consecutive (map id_attr (pre @ [l])))\<rparr>,
            vs_nodes := (vs_nodes s)(id_attr l \<mapsto> node_spec l)\<rparr>"
  have step: "loop_body s (length pre, l) = Inr s'"
    unfolding s'_def using Cons.prems by (rule loop_body_step)
  have lay': "layers (vs_model s') = (pre @ [l]) @ suf"
    using Cons.prems(1) by (simp add: s'_def)
  have keyed': "\<forall>k n. vs_nodes s' k = Some n \<longrightarrow> node_name n = k"
    using Cons.prems(2) by (simp add: s'_def node_spec_def)
  have prev': "pre @ [l] \<noteq> [] \<longrightarrow> vs_nodes s' (id_attr (last (pre @ [l]))) \<noteq> None"
    by (simp add: s'_def)
  have edges': "dot_edges (vs_dot s') = (consecutive (map id_attr (pre @ [l])))"
    by (simp add: s'_def)
  from Cons.IH [OF lay' keyed' prev' edges'] obtain nodes where
    run: "for_loop s' (enumerate (length (pre @ [l])) suf) =
     Inr (s'\<lparr>vs_dot := (vs_dot s')
              \<lparr>dot_nodes := dot_nodes (vs_dot s') @ map node_spec suf,
               dot_edges := (consecutive (map id_attr ((pre @ [l]) @ suf)))\<rparr>,
            vs_nodes := nodes\<rparr>)"
    by blast
  have "for_loop s (enumerate (length pre) (l # suf)) =
     Inr (s\<lparr>vs_dot := (vs_dot s)
              \<lparr>dot_nodes := dot_nodes (vs_dot s) @ map node_spec (l # suf),
               dot_edges := (consecutive (map id_attr (pre @ l # suf)))\<rparr>,
            vs_nodes := nodes\<rparr>)"
    using run by (simp add: step) (simp add: s'_def)
  then show ?case by (rule exI [where x = nodes])
qed

lemma visualize_model_graph:
  "\<exists>nodes. visualize_model m = Inr \<lparr>vs_model = m, vs_dot = built_graph m, vs_nodes = nodes\<rparr>"
proof -
  let ?s = "\<lparr>vs_model = m,
            vs_dot = set_edge_defaults (set_node_defaults (set_attr Dot ''rankdir'' ''LR'')
                [(''shape'', ''record''), (''fontname'', ''arial''), (''fontsize'', ''10'')])
                [(''arrowsize'', ''0.7'')],
            vs_nodes = Map.empty\<rparr>"
  have "\<exists>nodes. for_loop ?s (enumerate (length ([]::layer list)) (layers m)) =
     Inr (?s\<lparr>vs_dot := (vs_dot ?s)
              \<lparr>dot_nodes := dot_nodes (vs_dot ?s) @ map node_spec (layers m),
               dot_edges := (consecutive (map id_attr ([] @ layers m)))\<rparr>,
            vs_nodes := nodes\<rparr>)"
    by (rule for_loop_run)
      (simp_all add: Dot_def set_attr_def set_node_defaults_def set_edge_defaults_def
        consecutive_def)
  then show ?thesis
    by (simp add: visualize_model_def Let_def built_graph_def Dot_def set_attr_def
        set_node_defaults_def set_edge_defaults_def)
qed

lemma loop_body_model: "loop_body s il = Inr s' \<Longrightarrow> vs_model s' = vs_model s"
  by (auto simp: loop_body_def Let_def split: prod.splits sum.splits if_splits)

lemma for_loop_model: "for_loop s ils = Inr s' \<Longrightarrow> vs_model s' = vs_model s"
proof (induction ils arbitrary: s)
  case Nil
  then show ?case by simp
next
  case (Cons il ils)
  then show ?case by (auto split: sum.splits dest: loop_body_model)
qed

lemma str_int_no_qm: "CHR ''?'' \<notin> set (str_int i)"
proof -
  have "CHR ''?'' \<notin> set (str_nat n)" for n
  proof
    assume "CHR ''?'' \<in> set (str_nat n)"
    with str_nat_digits [of n] have "CHR ''?'' \<in> set ''0123456789''" by (rule subsetD)
    then show False by simp
  qed
  then show ?thesis by (simp add: str_int_def)
qed

lemma built_graph_nodes_names: "map node_name (dot_nodes (built_graph m)) = map id_attr (layers m)"
  by (simp add: built_graph_def node_spec_def comp_def)

lemma built_graph_nodes_labels:
  "map (\<lambda>n. Inr (node_label n)) (dot_nodes (built_graph m)) = map get_label (layers m)"
  by (simp add: built_graph_def node_spec_def comp_def get_label_spec)

lemma built_graph_edges_length: "length (dot_edges (built_graph m)) = length (layers m) - 1"
  by (simp add: built_graph_def length_consecutive)

lemma built_graph_edges_set:
  "set (dot_edges (built_graph m)) =
     {(id_attr (layers m ! (i - 1)), id_attr (layers m ! i)) | i. 1 \<le> i \<and> i < length (layers m)}"
proof -
  let ?ids = "map id_attr (layers m)"
  have "set (dot_edges (built_graph m)) =
      {(?ids ! (i - 1), ?ids ! i) | i. 1 \<le> i \<and> i < length ?ids}"
    by (simp only: built_graph_def dot.simps set_consecutive)
  also have "\<dots> =
      {(id_attr (layers m ! (i - 1)), id_attr (layers m ! i)) | i. 1 \<le> i \<and> i < length (layers m)}"
    by (rule Collect_cong, rule iff_exI) auto
  finally show ?thesis .
qed

lemma label_spec_cong:
  "name a = name b \<Longrightarrow> dims a ''nO'' = dims b ''nO'' \<Longrightarrow> dims a ''nI'' = dims b ''nI'' \<Longrightarrow>
   label_spec a = label_spec b"
  by (simp add: label_spec_def dim_text_def)

lemma built_graph_cong:
  assumes "list_all2 (\<lambda>a b. name a = name b \<and> id_attr a = id_attr b \<and>
              dims a ''nO'' = dims b ''nO'' \<and> dims a ''nI'' = dims b ''nI'') xs ys"
  shows "map node_spec xs = map node_spec ys \<and> map id_attr xs = map id_attr ys"
  using assms
proof (induction rule: list_all2_induct)
  case Nil
  show ?case by simp
next
  case (Cons a xs b ys)
  from Cons.hyps(1) have n: "name a = name b" and i: "id_attr a = id_attr b"
    and vO: "dims a ''nO'' = dims b ''nO''" and vI: "dims a ''nI'' = dims b ''nI''"
    by blast+
  from n vO vI have "label_spec a = label_spec b" by (rule label_spec_cong)
  with i have "node_spec a = node_spec b" by (simp only: node_spec_def)
  with i Cons.IH show ?case by (simp only: list.map)
qed

lemma after_relu_facts:
  "layers (vs_model after_relu) = [relu_layer] @ maxout_layer # []"
  "\<forall>k n. vs_nodes after_relu k = Some n \<longrightarrow> node_name n = k"
  "vs_nodes after_relu (id_attr (last [relu_layer])) \<noteq> None"
  "dot_edges (vs_dot after_relu) = []"
  by (auto simp: after_relu_def relu_maxout_def node_spec_def relu_layer_def split: if_splits)

lemma after_relu_step: "\<exists>s'. loop_body after_relu (1, maxout_layer) = Inr s'"
proof -
  have lay: "layers (vs_model after_relu) = [relu_layer] @ maxout_layer # []"
    by (simp add: after_relu_def relu_maxout_def)
  have keyed: "\<And>k n. vs_nodes after_relu k = Some n \<Longrightarrow> node_name n = k"
    by (auto simp: after_relu_def node_spec_def relu_layer_def split: if_splits)
  have prev: "vs_nodes after_relu (id_attr (last [relu_layer])) \<noteq> None"
    by (simp add: after_relu_def relu_layer_def)
  from loop_body_next [OF lay _ keyed prev] show ?thesis by simp
qed

section \<open>The claims about the diagram builder\<close>

text \<open>
  C2 says that the built graph never holds the same ordered pair of layer identifiers
  twice, because an edge is added only when \<open>get_edge\<close> finds none between the pair. The
  code does not keep this: the check hands the two node objects to \<open>get_edge\<close>, which
  finds no edge under a pair of node objects, so that the check never stops an edge. On
  the pipeline of the layers relu, maxout, relu, maxout (identifiers 1, 2, 1, 2) the call
  succeeds and the graph has the edges (1, 2), (2, 1), (1, 2): the pair (1, 2) twice. The
  iteration for maxout from a state whose graph already has the edge (1, 2) adds it again.
  In that state the lookup with the node objects is empty, where a lookup with the two
  names finds the edge.
\<close>

theorem repeated_layers_duplicate_edge:
  "(\<exists>s. visualize_model \<lparr>layers = [relu_layer, maxout_layer, relu_layer, maxout_layer]\<rparr> = Inr s
        \<and> dot_edges (vs_dot s) = [(1, 2), (2, 1), (1, 2)]
        \<and> \<not> distinct (dot_edges (vs_dot s)))
   \<and> dot_edges (vs_dot after_maxout) = [(1, 2)]
   \<and> (\<exists>s'. loop_body after_maxout (1, maxout_layer) = Inr s'
        \<and> dot_edges (vs_dot s') = [(1, 2), (1, 2)])
   \<and> get_edge (vs_dot after_maxout) (Obj (node_spec relu_layer)) (Obj (node_spec maxout_layer)) = []
   \<and> get_edge (vs_dot after_maxout) (Name 1) (Name 2) = [(1, 2)]"
proof -
  let ?m = "\<lparr>layers = [relu_layer, maxout_layer, relu_layer, maxout_layer]\<rparr>"
  obtain nodes where "visualize_model ?m = Inr \<lparr>vs_model = ?m, vs_dot = built_graph ?m, vs_nodes = nodes\<rparr>"
    using visualize_model_graph by blast
  then have run: "\<exists>s. visualize_model ?m = Inr s
        \<and> dot_edges (vs_dot s) = [(1, 2), (2, 1), (1, 2)]
        \<and> \<not> distinct (dot_edges (vs_dot s))"
    by (simp add: built_graph_def consecutive_def relu_layer_def maxout_layer_def)
  have before: "dot_edges (vs_dot after_maxout) = [(1, 2)]"
    by (simp add: after_maxout_def built_graph_def relu_maxout_def consecutive_def
        relu_layer_def maxout_layer_def)
  have lay: "layers (vs_model after_maxout) = [relu_layer] @ maxout_layer # []"
    by (simp add: after_maxout_def relu_maxout_def)
  have keyed: "\<And>k n. vs_nodes after_maxout k = Some n \<Longrightarrow> node_name n = k"
    by (auto simp: after_maxout_def node_spec_def relu_layer_def maxout_layer_def split: if_splits)
  have prev: "vs_nodes after_maxout (id_attr (last [relu_layer])) \<noteq> None"
    by (simp add: after_maxout_def relu_layer_def)
  from loop_body_next [OF lay _ keyed prev]
  have step: "\<exists>s'. loop_body after_maxout (1, maxout_layer) = Inr s'
        \<and> dot_edges (vs_dot s') = [(1, 2), (1, 2)]"
    by (simp add: before relu_layer_def maxout_layer_def)
  have objects: "get_edge (vs_dot after_maxout) (Obj (node_spec relu_layer))
        (Obj (node_spec maxout_layer)) = []"
    by (rule get_edge_objects)
  have names: "get_edge (vs_dot after_maxout) (Name 1) (Name 2) = [(1, 2)]"
    by (simp add: get_edge_def before)
  from run before step objects names show ?thesis by blast
qed

text \<open>
  C3: for a pipeline of N layers, one call of \<open>visualize_model\<close> adds exactly N nodes to
  the graph, one per layer and in the order of the layers, each keyed by the layer's
  identifier and labelled with what \<open>get_label\<close> returns for the layer; and it adds at
  most N - 1 edges (none for the empty pipeline, where N - 1 is not a count).
\<close>

theorem node_and_edge_counts:
  "\<exists>s. visualize_model m = Inr s
     \<and> length (dot_nodes (vs_dot s)) = length (layers m)
     \<and> map node_name (dot_nodes (vs_dot s)) = map id_attr (layers m)
     \<and> map (\<lambda>n. Inr (node_label n)) (dot_nodes (vs_dot s)) = map get_label (layers m)
     \<and> length (dot_edges (vs_dot s)) \<le> length (layers m) - 1
     \<and> (layers m = [] \<and> dot_edges (vs_dot s) = [] \<or>
        Suc (length (dot_edges (vs_dot s))) \<le> length (layers m))"
proof -
  obtain nodes where run:
    "visualize_model m = Inr \<lparr>vs_model = m, vs_dot = built_graph m, vs_nodes = nodes\<rparr>"
    using visualize_model_graph by blast
  have n: "length (dot_nodes (built_graph m)) = length (layers m)"
    by (simp add: built_graph_def)
  have e: "length (dot_edges (built_graph m)) \<le> length (layers m) - 1"
    by (simp add: built_graph_edges_length)
  have e': "layers m = [] \<and> dot_edges (built_graph m) = [] \<or>
        Suc (length (dot_edges (built_graph m))) \<le> length (layers m)"
    using e by (cases "layers m") auto
  from run n built_graph_nodes_names [of m] built_graph_nodes_labels [of m] e e'
  show ?thesis by simp
qed

text \<open>
  C4: \<open>visualize_model\<close> takes the layers in order: the nodes of the graph carry the
  layers' identifiers in the order of the pipeline. The iteration for the first layer
  (\<open>i = 0\<close>) leaves the edges as they are. An iteration at a position \<open>i \<ge> 1\<close>, where
  \<open>pre\<close> holds the \<open>i\<close> layers before the current one, succeeds, and the only edge it
  may add is the pair (identifier of layer \<open>i - 1\<close>, identifier of layer \<open>i\<close>), at the
  end of the edges; this for every state in which the dictionary \<open>nodes\<close> maps an
  identifier to a node of that name and holds the previous layer's identifier, as every
  state of the loop does. So every edge of the built graph is the pair of some position
  \<open>i \<ge> 1\<close>, a consecutive ordered pair of the pipeline, and the pair of every position
  \<open>i \<ge> 1\<close> is an edge.
\<close>

theorem edges_follow_pipeline_order:
  "(\<exists>s. visualize_model m = Inr s
      \<and> map node_name (dot_nodes (vs_dot s)) = map id_attr (layers m)
      \<and> (\<forall>e \<in> set (dot_edges (vs_dot s)). \<exists>i. 1 \<le> i \<and> i < length (layers m) \<and>
            e = (id_attr (layers m ! (i - 1)), id_attr (layers m ! i)))
      \<and> (\<forall>i. 1 \<le> i \<and> i < length (layers m) \<longrightarrow>
            (id_attr (layers m ! (i - 1)), id_attr (layers m ! i)) \<in> set (dot_edges (vs_dot s))))
   \<and> (\<exists>s'. loop_body s0 (0, l) = Inr s' \<and> dot_edges (vs_dot s') = dot_edges (vs_dot s0))
   \<and> (\<forall>pre suf. layers (vs_model s0) = pre @ l # suf \<and> pre \<noteq> [] \<and>
          (\<forall>k n. vs_nodes s0 k = Some n \<longrightarrow> node_name n = k) \<and>
          vs_nodes s0 (id_attr (last pre)) \<noteq> None \<longrightarrow>
        (\<exists>s'. loop_body s0 (length pre, l) = Inr s' \<and>
           (dot_edges (vs_dot s') = dot_edges (vs_dot s0) \<or>
            dot_edges (vs_dot s') = dot_edges (vs_dot s0) @ [(id_attr (last pre), id_attr l)])))"
proof (intro conjI)
  obtain nodes where run:
    "visualize_model m = Inr \<lparr>vs_model = m, vs_dot = built_graph m, vs_nodes = nodes\<rparr>"
    using visualize_model_graph by blast
  have a: "\<forall>e \<in> set (dot_edges (built_graph m)). \<exists>i. 1 \<le> i \<and> i < length (layers m) \<and>
            e = (id_attr (layers m ! (i - 1)), id_attr (layers m ! i))"
    unfolding built_graph_edges_set by blast
  have b: "\<forall>i. 1 \<le> i \<and> i < length (layers m) \<longrightarrow>
            (id_attr (layers m ! (i - 1)), id_attr (layers m ! i)) \<in> set (dot_edges (built_graph m))"
    unfolding built_graph_edges_set by blast
  from run built_graph_nodes_names [of m] a b
  show "\<exists>s. visualize_model m = Inr s
      \<and> map node_name (dot_nodes (vs_dot s)) = map id_attr (layers m)
      \<and> (\<forall>e \<in> set (dot_edges (vs_dot s)). \<exists>i. 1 \<le> i \<and> i < length (layers m) \<and>
            e = (id_attr (layers m ! (i - 1)), id_attr (layers m ! i)))
      \<and> (\<forall>i. 1 \<le> i \<and> i < length (layers m) \<longrightarrow>
            (id_attr (layers m ! (i - 1)), id_attr (layers m ! i)) \<in> set (dot_edges (vs_dot s)))"
    by simp
next
  show "\<exists>s'. loop_body s0 (0, l) = Inr s' \<and> dot_edges (vs_dot s') = dot_edges (vs_dot s0)"
    by (simp add: loop_body_first)
next
  show "\<forall>pre suf. layers (vs_model s0) = pre @ l # suf \<and> pre \<noteq> [] \<and>
          (\<forall>k n. vs_nodes s0 k = Some n \<longrightarrow> node_name n = k) \<and>
          vs_nodes s0 (id_attr (last pre)) \<noteq> None \<longrightarrow>
        (\<exists>s'. loop_body s0 (length pre, l) = Inr s' \<and>
           (dot_edges (vs_dot s') = dot_edges (vs_dot s0) \<or>
            dot_edges (vs_dot s') = dot_edges (vs_dot s0) @ [(id_attr (last pre), id_attr l)]))"
  proof (intro allI impI)
    fix pre suf
    assume h: "layers (vs_model s0) = pre @ l # suf \<and> pre \<noteq> [] \<and>
          (\<forall>k n. vs_nodes s0 k = Some n \<longrightarrow> node_name n = k) \<and>
          vs_nodes s0 (id_attr (last pre)) \<noteq> None"
    then have lay: "layers (vs_model s0) = pre @ l # suf" and ne: "pre \<noteq> []"
      and keyed: "\<And>k n. vs_nodes s0 k = Some n \<Longrightarrow> node_name n = k"
      and prev: "vs_nodes s0 (id_attr (last pre)) \<noteq> None"
      by blast+
    show "\<exists>s'. loop_body s0 (length pre, l) = Inr s' \<and>
           (dot_edges (vs_dot s') = dot_edges (vs_dot s0) \<or>
            dot_edges (vs_dot s') = dot_edges (vs_dot s0) @ [(id_attr (last pre), id_attr l)])"
      by (simp add: loop_body_next [OF lay ne keyed prev])
  qed
qed

theorem edges_follow_pipeline_order_witness:
  "(\<exists>s. visualize_model relu_maxout = Inr s
      \<and> (1::nat) \<le> 1 \<and> 1 < length (layers relu_maxout)
      \<and> (1, 2) \<in> set (dot_edges (vs_dot s))
      \<and> (\<exists>i. 1 \<le> i \<and> i < length (layers relu_maxout) \<and>
            (1, 2) = (id_attr (layers relu_maxout ! (i - 1)), id_attr (layers relu_maxout ! i))))
   \<and> layers (vs_model after_relu) = [relu_layer] @ maxout_layer # []
   \<and> [relu_layer] \<noteq> []
   \<and> vs_nodes after_relu 1 = Some (node_spec relu_layer) \<and> node_name (node_spec relu_layer) = 1
   \<and> vs_nodes after_relu (id_attr (last [relu_layer])) \<noteq> None
   \<and> (\<exists>s'. loop_body after_relu (1, maxout_layer) = Inr s' \<and>
        (dot_edges (vs_dot s') = [] \<or> dot_edges (vs_dot s') = [(1, 2)]))"
proof -
  note inst = edges_follow_pipeline_order [of relu_maxout after_relu maxout_layer]
  from inst obtain s where run: "visualize_model relu_maxout = Inr s"
    and ball: "\<forall>e \<in> set (dot_edges (vs_dot s)). \<exists>i. 1 \<le> i \<and> i < length (layers relu_maxout) \<and>
            e = (id_attr (layers relu_maxout ! (i - 1)), id_attr (layers relu_maxout ! i))"
    and each: "\<forall>i. 1 \<le> i \<and> i < length (layers relu_maxout) \<longrightarrow>
            (id_attr (layers relu_maxout ! (i - 1)), id_attr (layers relu_maxout ! i))
              \<in> set (dot_edges (vs_dot s))"
    by blast
  have i1: "(1::nat) \<le> 1 \<and> 1 < length (layers relu_maxout)"
    by (simp add: relu_maxout_def)
  with each have "(id_attr (layers relu_maxout ! (1 - 1)), id_attr (layers relu_maxout ! 1))
              \<in> set (dot_edges (vs_dot s))"
    by blast
  then have mem: "(1, 2) \<in> set (dot_edges (vs_dot s))"
    by (simp add: relu_maxout_def relu_layer_def maxout_layer_def)
  with ball have ex: "\<exists>i. 1 \<le> i \<and> i < length (layers relu_maxout) \<and>
            (1, 2) = (id_attr (layers relu_maxout ! (i - 1)), id_attr (layers relu_maxout ! i))"
    by blast
  have first: "\<exists>s. visualize_model relu_maxout = Inr s
      \<and> (1::nat) \<le> 1 \<and> 1 < length (layers relu_maxout)
      \<and> (1, 2) \<in> set (dot_edges (vs_dot s))
      \<and> (\<exists>i. 1 \<le> i \<and> i < length (layers relu_maxout) \<and>
            (1, 2) = (id_attr (layers relu_maxout ! (i - 1)), id_attr (layers relu_maxout ! i)))"
    using run i1 mem ex by blast
  from inst after_relu_facts(1-3)
  have "\<exists>s'. loop_body after_relu (length [relu_layer], maxout_layer) = Inr s' \<and>
           (dot_edges (vs_dot s') = dot_edges (vs_dot after_relu) \<or>
            dot_edges (vs_dot s') =
              dot_edges (vs_dot after_relu) @ [(id_attr (last [relu_layer]), id_attr maxout_layer)])"
    by blast
  then have step: "\<exists>s'. loop_body after_relu (1, maxout_layer) = Inr s' \<and>
      (dot_edges (vs_dot s') = [] \<or> dot_edges (vs_dot s') = [(1, 2)])"
    by (simp add: after_relu_facts(4) relu_layer_def maxout_layer_def)
  have keyed1: "vs_nodes after_relu 1 = Some (node_spec relu_layer) \<and>
      node_name (node_spec relu_layer) = 1"
    by (simp add: after_relu_def node_spec_def relu_layer_def)
  from first step keyed1 after_relu_facts(1,3) show ?thesis by simp
qed

text \<open>
  C6: the empty pipeline gives a graph with no node and no edge, and a pipeline of one
  layer gives one node (keyed by the layer's identifier, labelled by \<open>get_label\<close>) and no
  edge; neither call fails.
\<close>

theorem short_pipelines:
  "(\<exists>s. visualize_model \<lparr>layers = []\<rparr> = Inr s
        \<and> dot_nodes (vs_dot s) = [] \<and> dot_edges (vs_dot s) = [])
   \<and> (\<exists>s label. get_label l = Inr label \<and> visualize_model \<lparr>layers = [l]\<rparr> = Inr s
        \<and> dot_nodes (vs_dot s) = [\<lparr>node_name = id_attr l, node_label = label\<rparr>]
        \<and> dot_edges (vs_dot s) = [])"
proof -
  have empty: "\<exists>s. visualize_model \<lparr>layers = []\<rparr> = Inr s
        \<and> dot_nodes (vs_dot s) = [] \<and> dot_edges (vs_dot s) = []"
    by (simp add: visualize_model_def Let_def Dot_def set_attr_def set_node_defaults_def
        set_edge_defaults_def)
  have single: "\<exists>s label. get_label l = Inr label \<and> visualize_model \<lparr>layers = [l]\<rparr> = Inr s
        \<and> dot_nodes (vs_dot s) = [\<lparr>node_name = id_attr l, node_label = label\<rparr>]
        \<and> dot_edges (vs_dot s) = []"
    by (simp add: visualize_model_def Let_def Dot_def set_attr_def set_node_defaults_def
        set_edge_defaults_def loop_body_def get_label_spec add_node_def Node_def)
  from empty single show ?thesis by (rule conjI)
qed

text \<open>
  C7: when \<open>visualize_model\<close> runs on the pipeline as it is after shape inference
  (\<open>m'\<close>), the label of every layer whose \<^verbatim>\<open>nO\<close> and \<^verbatim>\<open>nI\<close> are then known is the
  escaped name followed by the two decimal values, which hold no \<^verbatim>\<open>?\<close>: whatever the
  labels of an earlier run were. The label depends on the layer's name and on its two
  dimensions at the time of the call only: two layers that agree on them have the same
  label.
\<close>

theorem labels_after_inference:
  "(\<forall>k vO vI. k < length (layers m') \<and> dims (layers m' ! k) ''nO'' = Some vO \<and>
       dims (layers m' ! k) ''nI'' = Some vI \<longrightarrow>
      (\<exists>s. visualize_model m' = Inr s \<and>
         node_label (dot_nodes (vs_dot s) ! k) =
           escape_gt (name (layers m' ! k)) @ ''|('' @ str_int vO @ '', '' @ str_int vI @ '')'' \<and>
         CHR ''?'' \<notin> set (str_int vO) \<and> CHR ''?'' \<notin> set (str_int vI)))
   \<and> (\<forall>l l'. name l = name l' \<and> dims l ''nO'' = dims l' ''nO'' \<and> dims l ''nI'' = dims l' ''nI'' \<longrightarrow>
        get_label l = get_label l')"
proof (intro conjI allI impI)
  fix k vO vI
  assume h: "k < length (layers m') \<and> dims (layers m' ! k) ''nO'' = Some vO \<and>
       dims (layers m' ! k) ''nI'' = Some vI"
  obtain nodes where run:
    "visualize_model m' = Inr \<lparr>vs_model = m', vs_dot = built_graph m', vs_nodes = nodes\<rparr>"
    using visualize_model_graph by blast
  from h have "node_label (dot_nodes (built_graph m') ! k) =
      escape_gt (name (layers m' ! k)) @ ''|('' @ str_int vO @ '', '' @ str_int vI @ '')''"
    by (simp add: built_graph_def node_spec_def label_spec_def dim_text_def)
  with run show "\<exists>s. visualize_model m' = Inr s \<and>
         node_label (dot_nodes (vs_dot s) ! k) =
           escape_gt (name (layers m' ! k)) @ ''|('' @ str_int vO @ '', '' @ str_int vI @ '')'' \<and>
         CHR ''?'' \<notin> set (str_int vO) \<and> CHR ''?'' \<notin> set (str_int vI)"
    by (simp add: str_int_no_qm)
next
  fix l l' :: layer
  assume "name l = name l' \<and> dims l ''nO'' = dims l' ''nO'' \<and> dims l ''nI'' = dims l' ''nI''"
  then show "get_label l = get_label l'"
    by (simp add: get_label_spec label_spec_def dim_text_def)
qed

theorem labels_after_inference_witness:
  "(\<exists>s. visualize_model \<lparr>layers = [relu_layer]\<rparr> = Inr s \<and>
        node_label (dot_nodes (vs_dot s) ! 0) = ''relu|(32, ?)'')
   \<and> (0::nat) < length (layers \<lparr>layers = [relu_inferred]\<rparr>)
   \<and> dims (layers \<lparr>layers = [relu_inferred]\<rparr> ! 0) ''nO'' = Some 32
   \<and> dims (layers \<lparr>layers = [relu_inferred]\<rparr> ! 0) ''nI'' = Some 16
   \<and> (\<exists>s. visualize_model \<lparr>layers = [relu_inferred]\<rparr> = Inr s \<and>
        node_label (dot_nodes (vs_dot s) ! 0) = ''relu|(32, 16)'')
   \<and> name maxout_layer = name maxout_pieces
   \<and> dims maxout_layer ''nO'' = dims maxout_pieces ''nO''
   \<and> dims maxout_layer ''nI'' = dims maxout_pieces ''nI''
   \<and> dims maxout_layer ''nP'' \<noteq> dims maxout_pieces ''nP''
   \<and> get_label maxout_layer = get_label maxout_pieces"
proof -
  note inst = labels_after_inference [of "\<lparr>layers = [relu_inferred]\<rparr>"]
  obtain nodes where "visualize_model \<lparr>layers = [relu_layer]\<rparr> =
      Inr \<lparr>vs_model = \<lparr>layers = [relu_layer]\<rparr>, vs_dot = built_graph \<lparr>layers = [relu_layer]\<rparr>,
           vs_nodes = nodes\<rparr>"
    using visualize_model_graph by blast
  then have before: "\<exists>s. visualize_model \<lparr>layers = [relu_layer]\<rparr> = Inr s \<and>
        node_label (dot_nodes (vs_dot s) ! 0) = ''relu|(32, ?)''"
    by (simp add: built_graph_def node_spec_def label_spec_def dim_text_def relu_layer_def
        escape_gt_def str_int_32)
  have h: "(0::nat) < length (layers \<lparr>layers = [relu_inferred]\<rparr>)
     \<and> dims (layers \<lparr>layers = [relu_inferred]\<rparr> ! 0) ''nO'' = Some 32
     \<and> dims (layers \<lparr>layers = [relu_inferred]\<rparr> ! 0) ''nI'' = Some 16"
    by (simp add: relu_inferred_def)
  with inst have "\<exists>s. visualize_model \<lparr>layers = [relu_inferred]\<rparr> = Inr s \<and>
         node_label (dot_nodes (vs_dot s) ! 0) =
           escape_gt (name (layers \<lparr>layers = [relu_inferred]\<rparr> ! 0)) @ ''|('' @ str_int 32 @ '', '' @
           str_int 16 @ '')'' \<and>
         CHR ''?'' \<notin> set (str_int 32) \<and> CHR ''?'' \<notin> set (str_int 16)"
    by blast
  then have after: "\<exists>s. visualize_model \<lparr>layers = [relu_inferred]\<rparr> = Inr s \<and>
        node_label (dot_nodes (vs_dot s) ! 0) = ''relu|(32, 16)''"
    by (simp add: relu_inferred_def escape_gt_def str_int_32 str_int_16)
  have agree: "name maxout_layer = name maxout_pieces
     \<and> dims maxout_layer ''nO'' = dims maxout_pieces ''nO''
     \<and> dims maxout_layer ''nI'' = dims maxout_pieces ''nI''"
    by (simp add: maxout_layer_def maxout_pieces_def)
  with inst have same: "get_label maxout_layer = get_label maxout_pieces" by blast
  have differ: "dims maxout_layer ''nP'' \<noteq> dims maxout_pieces ''nP''"
    by (simp add: maxout_layer_def maxout_pieces_def)
  from before h after agree differ same show ?thesis by blast
qed

text \<open>
  C8: the pipeline object in the state after \<open>visualize_model\<close> is the one it was given:
  its layer sequence, and with it every layer's name, identifier and dimensions, are as
  before the call. Every iteration of the loop, and the loop from any state, leave the
  pipeline object as it is. (\<open>get_label\<close> returns a label only; the accessors it calls are
  reads.)
\<close>

theorem pipeline_unchanged:
  "(\<exists>s. visualize_model m = Inr s \<and> vs_model s = m \<and> layers (vs_model s) = layers m)
   \<and> (\<forall>s il s'. loop_body s il = Inr s' \<longrightarrow> vs_model s' = vs_model s)
   \<and> (\<forall>s ils s'. for_loop s ils = Inr s' \<longrightarrow> vs_model s' = vs_model s)"
proof -
  obtain nodes where "visualize_model m = Inr \<lparr>vs_model = m, vs_dot = built_graph m, vs_nodes = nodes\<rparr>"
    using visualize_model_graph by blast
  then have "\<exists>s. visualize_model m = Inr s \<and> vs_model s = m \<and> layers (vs_model s) = layers m"
    by simp
  with loop_body_model for_loop_model show ?thesis by blast
qed

theorem pipeline_unchanged_witness:
  "(\<exists>s'. loop_body after_relu (1, maxout_layer) = Inr s' \<and> vs_model s' = vs_model after_relu)
   \<and> (\<exists>s'. for_loop after_relu [(1, maxout_layer)] = Inr s' \<and> vs_model s' = vs_model after_relu)"
proof -
  from after_relu_step obtain s' where step: "loop_body after_relu (1, maxout_layer) = Inr s'"
    by blast
  then have run: "for_loop after_relu [(1, maxout_layer)] = Inr s'" by simp
  from pipeline_unchanged [of relu_maxout] step run show ?thesis by blast
qed

text \<open>
  C9: two pipelines whose layers agree, position by position, on name, identifier and the
  two dimensions \<^verbatim>\<open>nO\<close> and \<^verbatim>\<open>nI\<close> give the same graph: the same nodes with the same
  labels, the same edges, the same attributes. (Each call starts from the empty graph
  \<open>Dot\<close>; the result is a function of the pipeline alone.)
\<close>

theorem visualize_model_deterministic:
  "list_all2 (\<lambda>a b. name a = name b \<and> id_attr a = id_attr b \<and>
              dims a ''nO'' = dims b ''nO'' \<and> dims a ''nI'' = dims b ''nI'')
     (layers m1) (layers m2) \<Longrightarrow>
   \<exists>s1 s2. visualize_model m1 = Inr s1 \<and> visualize_model m2 = Inr s2 \<and>
     vs_dot s1 = vs_dot s2 \<and>
     dot_nodes (vs_dot s1) = dot_nodes (vs_dot s2) \<and>
     dot_edges (vs_dot s1) = dot_edges (vs_dot s2)"
proof -
  assume agree: "list_all2 (\<lambda>a b. name a = name b \<and> id_attr a = id_attr b \<and>
              dims a ''nO'' = dims b ''nO'' \<and> dims a ''nI'' = dims b ''nI'')
     (layers m1) (layers m2)"
  obtain n1 where r1:
    "visualize_model m1 = Inr \<lparr>vs_model = m1, vs_dot = built_graph m1, vs_nodes = n1\<rparr>"
    using visualize_model_graph by blast
  obtain n2 where r2:
    "visualize_model m2 = Inr \<lparr>vs_model = m2, vs_dot = built_graph m2, vs_nodes = n2\<rparr>"
    using visualize_model_graph by blast
  from built_graph_cong [OF agree] have "built_graph m1 = built_graph m2"
    by (simp only: built_graph_def)
  with r1 r2 show ?thesis by simp
qed

theorem visualize_model_deterministic_witness:
  "list_all2 (\<lambda>a b. name a = name b \<and> id_attr a = id_attr b \<and>
              dims a ''nO'' = dims b ''nO'' \<and> dims a ''nI'' = dims b ''nI'')
     (layers relu_maxout) (layers \<lparr>layers = [relu_layer, maxout_pieces]\<rparr>)
   \<and> dims (layers relu_maxout ! 1) ''nP'' \<noteq> dims (layers \<lparr>layers = [relu_layer, maxout_pieces]\<rparr> ! 1) ''nP''
   \<and> (\<exists>s1 s2. visualize_model relu_maxout = Inr s1 \<and>
        visualize_model \<lparr>layers = [relu_layer, maxout_pieces]\<rparr> = Inr s2 \<and>
        vs_dot s1 = vs_dot s2)"
proof -
  have agree: "list_all2 (\<lambda>a b. name a = name b \<and> id_attr a = id_attr b \<and>
              dims a ''nO'' = dims b ''nO'' \<and> dims a ''nI'' = dims b ''nI'')
     (layers relu_maxout) (layers \<lparr>layers = [relu_layer, maxout_pieces]\<rparr>)"
    by (simp add: relu_maxout_def maxout_layer_def maxout_pieces_def)
  have differ: "dims (layers relu_maxout ! 1) ''nP'' \<noteq>
      dims (layers \<lparr>layers = [relu_layer, maxout_pieces]\<rparr> ! 1) ''nP''"
    by (simp add: relu_maxout_def maxout_layer_def maxout_pieces_def)
  from visualize_model_deterministic [OF agree] agree differ show ?thesis by blast
qed

text \<open>
  C10: for a pipeline of N \<open>\<ge>\<close> 1 layers with pairwise distinct identifiers, the built
  graph has exactly N - 1 edges: the consecutive pairs of identifiers, in order. (The
  check before \<open>add_edge\<close> stops no edge, so that the count does not rest on the
  identifiers being distinct.)
\<close>

theorem distinct_ids_all_edges:
  "layers m \<noteq> [] \<Longrightarrow> distinct (map id_attr (layers m)) \<Longrightarrow>
   \<exists>s. visualize_model m = Inr s \<and>
     Suc (length (dot_edges (vs_dot s))) = length (layers m) \<and>
     dot_edges (vs_dot s) = zip (map id_attr (layers m)) (tl (map id_attr (layers m)))"
proof -
  assume ne: "layers m \<noteq> []"
  obtain nodes where run:
    "visualize_model m = Inr \<lparr>vs_model = m, vs_dot = built_graph m, vs_nodes = nodes\<rparr>"
    using visualize_model_graph by blast
  have e: "dot_edges (built_graph m) = consecutive (map id_attr (layers m))"
    by (simp add: built_graph_def)
  from ne have "Suc (length (consecutive (map id_attr (layers m)))) = length (layers m)"
    by (cases "layers m") (simp_all add: length_consecutive)
  with run e show ?thesis by (simp add: consecutive_def)
qed

theorem distinct_ids_all_edges_witness:
  "layers \<lparr>layers = [relu_layer, maxout_layer, linear_layer]\<rparr> \<noteq> []
   \<and> distinct (map id_attr (layers \<lparr>layers = [relu_layer, maxout_layer, linear_layer]\<rparr>))
   \<and> (\<exists>s. visualize_model \<lparr>layers = [relu_layer, maxout_layer, linear_layer]\<rparr> = Inr s \<and>
        dot_edges (vs_dot s) = [(1, 2), (2, 3)])"
proof -
  let ?m = "\<lparr>layers = [relu_layer, maxout_layer, linear_layer]\<rparr>"
  have ne: "layers ?m \<noteq> []" by simp
  have d: "distinct (map id_attr (layers ?m))"
    by (simp add: relu_layer_def maxout_layer_def linear_layer_def)
  from distinct_ids_all_edges [OF ne d] obtain s where "visualize_model ?m = Inr s"
    and "dot_edges (vs_dot s) = zip (map id_attr (layers ?m)) (tl (map id_attr (layers ?m)))"
    by blast
  then have "\<exists>s. visualize_model ?m = Inr s \<and> dot_edges (vs_dot s) = [(1, 2), (2, 3)]"
    by (simp add: relu_layer_def maxout_layer_def linear_layer_def)
  with ne d show ?thesis by blast
qed

end
